theory Spec2Isabelle
  imports Complex_Main
begin

section \<open>Data model of \<open>flipada.py\<close>\<close>

text \<open>
  The application is one Python module. Its own logic is the frame pipeline
  \<open>process_video\<close>, the asset fetcher \<open>descargar_archivo_hf\<close>, the credential check
  \<open>authenticate\<close> and the part of \<open>main\<close> that loads the model. Everything else is a call
  into a library (OpenCV, ultralytics, hashlib, huggingface_hub, os); each such call is
  modelled by what the module observes of it, and its effects are written into an explicit
  state that is passed along.

  Conventions: a Python \<open>str\<close> is a \<open>string\<close>; a Python \<open>int\<close> is an \<open>int\<close>; a finite
  Python \<open>float\<close> is the \<open>rat\<close> of its exact value; an exception is a value \<open>Inl e\<close> of a
  sum type, a normal return is \<open>Inr v\<close>.
\<close>

datatype error =
    TypeError
  | AttributeError
  | KeyError
  | CvError
  | FileNotFoundError
  | OSError
  | DownloadError
  | ModelError string

subsection \<open>Frames and overlays\<close>

text \<open>
  A decoded frame as \<open>cap.read()\<close> hands it out: its native size and its pixel content
  (an opaque tag). \<open>cv2.resize(frame, size)\<close> returns a new image of the requested size;
  \<open>cv2.rectangle\<close> and \<open>cv2.putText\<close> draw on it in place, which the model records as
  the list of overlays drawn so far, in drawing order. \<open>read\<close> reports success only with an
  image that is not empty, and on such an image \<open>resize\<close> does not raise. The drawing
  functions take their points as C \<open>int\<close>s: a coordinate outside that range raises
  \<open>cv2.error\<close>; a shape that leaves the image is clipped by the library.
\<close>

record raw_frame =
  native_width :: nat
  native_height :: nat
  pixels :: nat

datatype font = FONT_HERSHEY_SIMPLEX

datatype draw =
    Rectangle "int \<times> int" "int \<times> int" "nat \<times> nat \<times> nat" nat
  | PutText string "int \<times> int" font rat "nat \<times> nat \<times> nat" nat

record frame =
  width :: nat
  height :: nat
  resized_from :: raw_frame
  overlays :: "draw list"

definition cv2_resize :: "raw_frame \<Rightarrow> nat \<times> nat \<Rightarrow> frame" where
  "cv2_resize raw dsize =
     \<lparr>width = fst dsize, height = snd dsize, resized_from = raw, overlays = []\<rparr>"

definition c_int :: "int \<Rightarrow> bool" where
  "c_int v \<longleftrightarrow> - 2147483648 \<le> v \<and> v \<le> 2147483647"

definition cv2_rectangle ::
  "frame \<Rightarrow> int \<times> int \<Rightarrow> int \<times> int \<Rightarrow> nat \<times> nat \<times> nat \<Rightarrow> nat \<Rightarrow> error + frame" where
  "cv2_rectangle img pt1 pt2 color thickness =
     (if c_int (fst pt1) \<and> c_int (snd pt1) \<and> c_int (fst pt2) \<and> c_int (snd pt2)
      then Inr (img\<lparr>overlays := overlays img @ [Rectangle pt1 pt2 color thickness]\<rparr>)
      else Inl CvError)"

definition cv2_putText ::
  "frame \<Rightarrow> string \<Rightarrow> int \<times> int \<Rightarrow> font \<Rightarrow> rat \<Rightarrow> nat \<times> nat \<times> nat \<Rightarrow> nat
     \<Rightarrow> error + frame" where
  "cv2_putText img txt org fnt scale color thickness =
     (if c_int (fst org) \<and> c_int (snd org)
      then Inr (img\<lparr>overlays := overlays img @ [PutText txt org fnt scale color thickness]\<rparr>)
      else Inl CvError)"

subsection \<open>Detections and the model object\<close>

text \<open>
  One element of \<open>r.boxes\<close>: the row \<open>box.xyxy[0]\<close>, and the scalars \<open>box.conf[0]\<close> and
  \<open>box.cls[0]\<close>, all floats. One element of \<open>results\<close> is the list of its boxes.
\<close>

record box =
  xyxy :: "rat \<times> rat \<times> rat \<times> rat"
  conf :: rat
  cls :: rat

type_synonym result = "box list"

text \<open>
  A loaded \<open>YOLO\<close> object: the weights file it was built from, its \<open>names\<close> dictionary,
  and what calling it does. The object may carry internal state of type \<open>'m\<close>; a call
  \<open>model(frame, stream=True, conf=c)\<close> together with the iteration over what it yields
  either raises or produces the list of results, and leaves a new internal state.
\<close>

record 'm yolo =
  weights :: string
  names :: "int \<rightharpoonup> string"
  predict :: "'m \<Rightarrow> frame \<Rightarrow> rat \<Rightarrow> (error + result list) \<times> 'm"

text \<open>
  The value bound to the parameter \<open>model\<close> of \<open>process_video\<close>: Python does not fix its
  type, and the function both compares it with a \<open>str\<close> and calls it.
\<close>

datatype 'm pyobj = PyStr string | PyYOLO "'m yolo"

text \<open>
  \<open>model == "..."\<close>. Two strings are equal when they are the same string. The \<open>YOLO\<close> class
  defines no \<open>__eq__\<close>, so Python compares by identity and an object is never equal to a
  \<open>str\<close>.
\<close>

fun py_eq_str :: "'m pyobj \<Rightarrow> string \<Rightarrow> bool" where
  "py_eq_str (PyStr s) t = (s = t)"
| "py_eq_str (PyYOLO y) t = False"

subsection \<open>The observable state\<close>

datatype event =
    CapOpen string
  | CapRead
  | CapRelease
  | Infer frame rat

record 'm world =
  mstate :: 'm
  trace :: "event list"

definition emit :: "event \<Rightarrow> 'm world \<Rightarrow> 'm world" where
  "emit e w = w\<lparr>trace := trace w @ [e]\<rparr>"

text \<open>
  \<open>cv2.VideoCapture\<close>: the files on disk are a function from paths to the frames a file
  decodes to, \<open>None\<close> where the path cannot be opened. \<open>read\<close> returns the next frame, or
  no success when none is left.
\<close>

record capture =
  opened :: bool
  pending :: "raw_frame list"

definition VideoCapture ::
  "(string \<Rightarrow> raw_frame list option) \<Rightarrow> string \<Rightarrow> 'm world \<Rightarrow> capture \<times> 'm world" where
  "VideoCapture videos video_path w =
     (case videos video_path of
        None \<Rightarrow> (\<lparr>opened = False, pending = []\<rparr>, emit (CapOpen video_path) w)
      | Some fs \<Rightarrow> (\<lparr>opened = True, pending = fs\<rparr>, emit (CapOpen video_path) w))"

definition isOpened :: "capture \<Rightarrow> bool" where
  "isOpened cap = opened cap"

definition cap_read :: "capture \<Rightarrow> 'm world \<Rightarrow> raw_frame option \<times> capture \<times> 'm world" where
  "cap_read cap w =
     (if \<not> opened cap then (None, cap, emit CapRead w)
      else case pending cap of
             [] \<Rightarrow> (None, cap, emit CapRead w)
           | f # fs \<Rightarrow> (Some f, cap\<lparr>pending := fs\<rparr>, emit CapRead w))"

definition cap_release :: "capture \<Rightarrow> 'm world \<Rightarrow> capture \<times> 'm world" where
  "cap_release cap w = (cap\<lparr>opened := False, pending := []\<rparr>, emit CapRelease w)"

subsection \<open>Python built-ins used by the annotation\<close>

text \<open>\<open>int(x)\<close> on a float truncates towards zero.\<close>

definition py_int :: "rat \<Rightarrow> int" where
  "py_int x = (if 0 \<le> x then \<lfloor>x\<rfloor> else \<lceil>x\<rceil>)"

text \<open>
  \<open>f"{x:.2f}"\<close>: the decimal with two fractional digits nearest to the exact value of
  \<open>x\<close>, ties going to the even neighbour, a minus sign for every negative \<open>x\<close>.
\<close>

definition round_half_even :: "rat \<Rightarrow> int" where
  "round_half_even x =
     (let f = \<lfloor>x\<rfloor>; d = x - of_int f
      in if d < 1 / 2 then f else if 1 / 2 < d then f + 1 else if even f then f else f + 1)"

definition digit_char :: "nat \<Rightarrow> char" where
  "digit_char d = char_of (48 + d)"

function str_nat :: "nat \<Rightarrow> string" where
  "str_nat n = (if n < 10 then [digit_char n] else str_nat (n div 10) @ [digit_char (n mod 10)])"
  by pat_completeness auto
termination
  by (relation "measure (\<lambda>n. n)") auto

definition format_2f :: "rat \<Rightarrow> string" where
  "format_2f x =
     (let h = nat (round_half_even (\<bar>x\<bar> * 100))
      in (if x < 0 then ''-'' else '''') @ str_nat (h div 100) @ ''.''
         @ [digit_char (h mod 100 div 10), digit_char (h mod 10)])"

text \<open>The literal \<open>0.3\<close> is the double nearest to three tenths; \<open>0.5\<close> is exact.\<close>

definition float_0_3 :: rat where
  "float_0_3 = 5404319552844595 / 18014398509481984"

definition float_0_5 :: rat where
  "float_0_5 = 1 / 2"

section \<open>The frame pipeline \<open>process_video\<close>\<close>

text \<open>
  Calling the value bound to \<open>model\<close>: a \<open>str\<close> is not callable; a \<open>YOLO\<close> object runs its
  inference on the current internal state. Each inference call is logged with its
  arguments.
\<close>

fun call_model :: "'m pyobj \<Rightarrow> frame \<Rightarrow> rat \<Rightarrow> 'm world \<Rightarrow> (error + result list) \<times> 'm world" where
  "call_model (PyStr s) img c w = (Inl TypeError, w)"
| "call_model (PyYOLO y) img c w =
     (case predict y (mstate w) img c of
        (r, m') \<Rightarrow> (r, (emit (Infer img c) w)\<lparr>mstate := m'\<rparr>))"

text \<open>\<open>model.names[cls]\<close>: a missing key raises; a \<open>str\<close> has no attribute \<open>names\<close>.\<close>

fun model_names :: "'m pyobj \<Rightarrow> int \<Rightarrow> error + string" where
  "model_names (PyStr s) k = Inl AttributeError"
| "model_names (PyYOLO y) k = (case names y k of None \<Rightarrow> Inl KeyError | Some n \<Rightarrow> Inr n)"

text \<open>The body of \<open>for box in boxes\<close> (lines 81 to 88).\<close>

definition draw_box :: "'m pyobj \<Rightarrow> frame \<Rightarrow> box \<Rightarrow> error + frame" where
  "draw_box model img b =
     (case xyxy b of (a1, b1, a2, b2) \<Rightarrow>
        let x1 = py_int a1; y1 = py_int b1; x2 = py_int a2; y2 = py_int b2;
            cf = conf b;
            k = py_int (cls b)
        in (case model_names model k of
              Inl e \<Rightarrow> Inl e
            | Inr class_name \<Rightarrow>
                (case cv2_rectangle img (x1, y1) (x2, y2) (0, 255, 0) 2 of
                   Inl e \<Rightarrow> Inl e
                 | Inr img1 \<Rightarrow>
                     let label = class_name @ '' '' @ format_2f cf
                     in cv2_putText img1 label (x1, y1 - 10) FONT_HERSHEY_SIMPLEX float_0_5
                          (0, 255, 0) 2)))"

text \<open>\<open>for box in boxes\<close> and \<open>for r in results\<close>: the first exception ends both.\<close>

fun draw_boxes :: "'m pyobj \<Rightarrow> frame \<Rightarrow> box list \<Rightarrow> error + frame" where
  "draw_boxes model img [] = Inr img"
| "draw_boxes model img (b # bs) =
     (case draw_box model img b of
        Inl e \<Rightarrow> Inl e
      | Inr img' \<Rightarrow> draw_boxes model img' bs)"

fun draw_results :: "'m pyobj \<Rightarrow> frame \<Rightarrow> result list \<Rightarrow> error + frame" where
  "draw_results model img [] = Inr img"
| "draw_results model img (r # rs) =
     (case draw_boxes model img r of
        Inl e \<Rightarrow> Inl e
      | Inr img' \<Rightarrow> draw_results model img' rs)"

text \<open>
  The \<open>while\<close> loop (lines 70 to 91). Its result is what leaves the loop: an exception, or
  the frames collected when the condition fails or the \<open>break\<close> is taken; with it the
  capture object and the state.
\<close>

function process_loop ::
  "'m pyobj \<Rightarrow> nat \<times> nat \<Rightarrow> int \<Rightarrow> capture \<Rightarrow> frame list \<Rightarrow> int \<Rightarrow> 'm world
     \<Rightarrow> (error + frame list) \<times> capture \<times> 'm world" where
  "process_loop model dsize max_frames cap processed_frames frame_count w =
     (if isOpened cap \<and> frame_count < max_frames then
        (case cap_read cap w of
           (None, cap1, w1) \<Rightarrow> (Inr processed_frames, cap1, w1)
         | (Some raw, cap1, w1) \<Rightarrow>
             (case call_model model (cv2_resize raw dsize) float_0_3 w1 of
                (Inl e, w2) \<Rightarrow> (Inl e, cap1, w2)
              | (Inr results, w2) \<Rightarrow>
                  (case draw_results model (cv2_resize raw dsize) results of
                     Inl e \<Rightarrow> (Inl e, cap1, w2)
                   | Inr annotated \<Rightarrow>
                       process_loop model dsize max_frames cap1
                         (processed_frames @ [annotated]) (frame_count + 1) w2)))
      else (Inr processed_frames, cap, w))"
  by pat_completeness auto
termination
  by (relation "measure (\<lambda>(model, dsize, max_frames, cap, processed_frames, frame_count, w).
                  nat (max_frames - frame_count))") auto

text \<open>
  \<open>process_video\<close> (lines 61 to 94). An exception raised in the loop leaves the function
  at once: the statements after the loop, \<open>cap.release()\<close> among them, are not run.
\<close>

definition select_size :: "'m pyobj \<Rightarrow> nat \<times> nat" where
  "select_size model =
     (if py_eq_str model ''best_YOLOv5n6u.pt'' then (1280, 1280) else (640, 360))"

definition process_video ::
  "(string \<Rightarrow> raw_frame list option) \<Rightarrow> string \<Rightarrow> 'm pyobj \<Rightarrow> int \<Rightarrow> 'm world
     \<Rightarrow> (error + frame list) \<times> 'm world" where
  "process_video videos video_path model max_frames w =
     (let dsize = select_size model in
      case VideoCapture videos video_path w of
        (cap, w0) \<Rightarrow>
          (case process_loop model dsize max_frames cap [] 0 w0 of
             (Inl e, cap1, w1) \<Rightarrow> (Inl e, w1)
           | (Inr processed_frames, cap1, w1) \<Rightarrow>
               (Inr processed_frames, snd (cap_release cap1 w1))))"

section \<open>The asset fetcher \<open>descargar_archivo_hf\<close>\<close>

text \<open>
  What the fetcher sees of the machine: what is at each path, every call made to
  \<open>hf_hub_download\<close> (repository and file name), and the messages shown by \<open>st.info\<close> and
  \<open>st.success\<close>. At a path there is nothing, a regular file, or a symbolic link with the
  target written in it: the hub keeps a downloaded file as a blob in its cache and, where
  the system has symbolic links, hands out a link to the blob.
\<close>

datatype entry = File | Link string

record disk =
  files :: "string \<rightharpoonup> entry"
  downloads :: "(string \<times> string) list"
  messages :: "string list"

text \<open>
  What the fetcher does not control: the value of \<open>HF_TOKEN\<close> read at start-up; the answer
  of the hub to a download (an exception, or the path it hands out; it may differ from one
  attempt to the next, so it takes the number of earlier attempts); what the hub leaves at
  the path it hands out and what else it writes (the blob); and whether the operating
  system lets an entry be moved from one path to another (same device, target directory
  present, permissions).
\<close>

record platform =
  HF_TOKEN :: "string option"
  hub :: "nat \<Rightarrow> string \<Rightarrow> string \<Rightarrow> string option \<Rightarrow> error + string"
  hub_entry :: "string \<Rightarrow> entry"
  hub_blobs :: "string \<Rightarrow> (string \<times> entry) list"
  rename_permitted :: "string \<Rightarrow> string \<Rightarrow> bool"

subsection \<open>Paths and links on a POSIX system\<close>

text \<open>The components of a path, and a path from its components.\<close>

fun split_path :: "string \<Rightarrow> string list" where
  "split_path [] = [[]]"
| "split_path (c # cs) =
     (if c = CHR ''/'' then [] # split_path cs
      else (case split_path cs of [] \<Rightarrow> [[c]] | w # ws \<Rightarrow> (c # w) # ws))"

fun join_path :: "string list \<Rightarrow> string" where
  "join_path [] = []"
| "join_path [c] = c"
| "join_path (c # cs) = c @ ''/'' @ join_path cs"

text \<open>
  Walking the components: an empty component and \<open>.\<close> stay in place, \<open>..\<close> goes to the
  parent (at the root it stays; above the start of a relative path it is kept). The
  components walked so far are held last first. Directories are taken not to be links.
\<close>

fun walk :: "bool \<Rightarrow> string list \<Rightarrow> string list \<Rightarrow> string list" where
  "walk absolute seen [] = rev seen"
| "walk absolute seen (c # cs) =
     (if c = [] \<or> c = ''.'' then walk absolute seen cs
      else if c = ''..'' then
        (case seen of
           [] \<Rightarrow> if absolute then walk absolute [] cs else walk absolute [''..''] cs
         | s # ss \<Rightarrow> if s = ''..'' then walk absolute (''..'' # seen) cs
                     else walk absolute ss cs)
      else walk absolute (c # seen) cs)"

definition is_absolute :: "string \<Rightarrow> bool" where
  "is_absolute p = (p \<noteq> [] \<and> hd p = CHR ''/'')"

text \<open>
  The path a link denotes: its target when that is absolute, otherwise the target taken
  from the directory the link is in.
\<close>

definition link_path :: "string \<Rightarrow> string \<Rightarrow> string" where
  "link_path p target =
     (if is_absolute target then ''/'' @ join_path (walk True [] (split_path target))
      else (if is_absolute p then ''/'' else [])
           @ join_path (walk (is_absolute p) [] (butlast (split_path p) @ split_path target)))"

text \<open>
  Following links from a path to a regular file, giving up after as many links as the
  argument says.
\<close>

fun resolves :: "nat \<Rightarrow> (string \<rightharpoonup> entry) \<Rightarrow> string \<Rightarrow> bool" where
  "resolves 0 fs p = False"
| "resolves (Suc n) fs p =
     (case fs p of
        None \<Rightarrow> False
      | Some File \<Rightarrow> True
      | Some (Link target) \<Rightarrow> resolves n fs (link_path p target))"

text \<open>
  \<open>os.path.exists\<close> follows links, so it is false for a link whose target is not there;
  the system gives up after 40 links; the empty path never exists.
\<close>

definition os_path_exists :: "disk \<Rightarrow> string \<Rightarrow> bool" where
  "os_path_exists d p = (p \<noteq> [] \<and> resolves 40 (files d) p)"

text \<open>\<open>st.info\<close> and \<open>st.success\<close>.\<close>

definition st_message :: "string \<Rightarrow> disk \<Rightarrow> disk" where
  "st_message msg d = d\<lparr>messages := messages d @ [msg]\<rparr>"

text \<open>
  \<open>hf_hub_download(repo_id=..., filename=..., use_auth_token=HF_TOKEN)\<close>: the call is
  logged; when it returns, the hub has written its blobs and there is an entry at the
  returned path.
\<close>

definition hf_hub_download ::
  "platform \<Rightarrow> string \<Rightarrow> string \<Rightarrow> disk \<Rightarrow> (error + string) \<times> disk" where
  "hf_hub_download pf repo_id filename d =
     (let d1 = d\<lparr>downloads := downloads d @ [(repo_id, filename)]\<rparr>
      in case hub pf (length (downloads d)) repo_id filename (HF_TOKEN pf) of
           Inl e \<Rightarrow> (Inl e, d1)
         | Inr archivo_path \<Rightarrow>
             (Inr archivo_path,
              d1\<lparr>files := (files d1 ++ map_of (hub_blobs pf archivo_path))
                              (archivo_path \<mapsto> hub_entry pf archivo_path)\<rparr>))"

text \<open>
  \<open>os.rename(src, dst)\<close>: an empty path or a source with nothing at it raises
  \<open>FileNotFoundError\<close>, a move the system refuses raises \<open>OSError\<close>; otherwise what was at
  \<open>src\<close> is at \<open>dst\<close> and no longer at \<open>src\<close>. A link is moved as a link, with the target
  that is written in it.
\<close>

definition os_rename :: "platform \<Rightarrow> string \<Rightarrow> string \<Rightarrow> disk \<Rightarrow> (error + unit) \<times> disk" where
  "os_rename pf src dst d =
     (if src = [] \<or> dst = [] then (Inl FileNotFoundError, d)
      else case files d src of
             None \<Rightarrow> (Inl FileNotFoundError, d)
           | Some e \<Rightarrow>
               if \<not> rename_permitted pf src dst then (Inl OSError, d)
               else (Inr (), d\<lparr>files := ((files d)(src := None))(dst \<mapsto> e)\<rparr>))"

text \<open>\<open>descargar_archivo_hf\<close> (lines 21 to 27).\<close>

definition descargar_archivo_hf ::
  "platform \<Rightarrow> string \<Rightarrow> string \<Rightarrow> string \<Rightarrow> disk \<Rightarrow> (error + string) \<times> disk" where
  "descargar_archivo_hf pf repo_id filename save_path d =
     (if \<not> os_path_exists d save_path then
        (let d1 = st_message (''Descargando '' @ filename @ '' desde Hugging Face...'') d
         in case hf_hub_download pf repo_id filename d1 of
              (Inl e, d2) \<Rightarrow> (Inl e, d2)
            | (Inr archivo_path, d2) \<Rightarrow>
                (case os_rename pf archivo_path save_path d2 of
                   (Inl e, d3) \<Rightarrow> (Inl e, d3)
                 | (Inr u, d3) \<Rightarrow>
                     (Inr save_path, st_message (filename @ '' descargado correctamente!'') d3)))
      else (Inr save_path, d))"

section \<open>The credential check \<open>authenticate\<close>\<close>

text \<open>
  \<open>hashlib.sha256(b).hexdigest()\<close> is a library function from bytes to a hexadecimal
  string; the definitions take it as the parameter \<open>sha256_hexdigest\<close>, so that what is
  proved holds whatever that function is. A password is represented by the bytes
  \<open>password.encode()\<close> gives.
\<close>

definition hash_password :: "(string \<Rightarrow> string) \<Rightarrow> string \<Rightarrow> string" where
  "hash_password sha256_hexdigest password = sha256_hexdigest password"

definition USERS :: "(string \<Rightarrow> string) \<Rightarrow> (string \<rightharpoonup> string)" where
  "USERS sha256_hexdigest = [''demo'' \<mapsto> hash_password sha256_hexdigest ''yolo2024'']"

text \<open>\<open>username in USERS and USERS[username] == hash_password(password)\<close>.\<close>

definition authenticate :: "(string \<Rightarrow> string) \<Rightarrow> string \<Rightarrow> string \<Rightarrow> bool" where
  "authenticate sha256_hexdigest username password =
     (case USERS sha256_hexdigest username of
        None \<Rightarrow> False
      | Some stored \<Rightarrow> stored = hash_password sha256_hexdigest password)"

section \<open>The part of \<open>main\<close> that loads the model and runs the pipeline\<close>

definition HF_REPO_ID :: string where
  "HF_REPO_ID = ''Marxx01/yolo_basket''"

definition MODELOS_HF_items :: "(string \<times> string) list" where
  "MODELOS_HF_items =
     [(''YOLOv11m'', ''best_yolo11m.pt''),
      (''YOLOv11n'', ''best_yolo11n.pt''),
      (''YOLOv5n6u'', ''best_YOLOv5n6u.pt''),
      (''YOLOv8m'', ''best_yolov8m.pt''),
      (''YOLOv8x'', ''best_yolov8x.pt'')]"

definition MODELOS_HF :: "string \<rightharpoonup> string" where
  "MODELOS_HF = map_of MODELOS_HF_items"

text \<open>\<open>os.path.join(a, b)\<close> on a POSIX system.\<close>

definition os_path_join :: "string \<Rightarrow> string \<Rightarrow> string" where
  "os_path_join a b =
     (if b \<noteq> [] \<and> hd b = CHR ''/'' then b
      else if a = [] \<or> last a = CHR ''/'' then a @ b
      else a @ ''/'' @ b)"

text \<open>The truth value of a \<open>str\<close> in a condition.\<close>

definition truthy :: "string \<Rightarrow> bool" where
  "truthy s = (s \<noteq> [])"

text \<open>
  Lines 117 to 124. \<open>modelo_seleccionado\<close> is what the select box returned; the constructor
  \<open>YOLO(path)\<close> is a library call that raises or returns the loaded object. The step ends
  with an exception, with the loaded model, or with the \<open>return\<close> of the \<open>else\<close> branch.
\<close>

datatype 'm loaded = Loaded "'m yolo" | Returned

definition main_load_model ::
  "platform \<Rightarrow> (disk \<Rightarrow> string \<Rightarrow> error + 'm yolo) \<Rightarrow> string \<Rightarrow> disk
     \<Rightarrow> (error + 'm loaded) \<times> disk" where
  "main_load_model pf YOLO modelo_seleccionado d =
     (case MODELOS_HF modelo_seleccionado of
        None \<Rightarrow> (Inl KeyError, d)
      | Some filename \<Rightarrow>
          (case descargar_archivo_hf pf HF_REPO_ID filename (os_path_join ''models'' filename) d of
             (Inl e, d1) \<Rightarrow> (Inl e, d1)
           | (Inr modelo_path, d1) \<Rightarrow>
               if truthy modelo_path then
                 (case YOLO d1 modelo_path of
                    Inl e \<Rightarrow> (Inl e, d1)
                  | Inr model \<Rightarrow>
                      (Inr (Loaded model),
                       st_message (''Modelo '' @ modelo_seleccionado @ '' cargado correctamente'') d1))
               else (Inr Returned, d1)))"

text \<open>
  Line 138: \<open>process_video(video_path, model)\<close> with the model loaded above and the default
  \<open>max_frames=100\<close>.
\<close>

definition main_process_video ::
  "(string \<Rightarrow> raw_frame list option) \<Rightarrow> string \<Rightarrow> 'm yolo \<Rightarrow> 'm world
     \<Rightarrow> (error + frame list) \<times> 'm world" where
  "main_process_video videos video_path model w =
     process_video videos video_path (PyYOLO model) 100 w"

section \<open>Observations and specification-side definitions\<close>

subsection \<open>Reading the trace\<close>

text \<open>
  The events of one pass through the loop body are the read and the inference; opening
  and releasing the capture are the events of its life cycle.
\<close>

fun is_step :: "event \<Rightarrow> bool" where
  "is_step CapRead = True"
| "is_step (Infer img c) = True"
| "is_step (CapOpen p) = False"
| "is_step CapRelease = False"

fun is_open :: "event \<Rightarrow> bool" where
  "is_open (CapOpen p) = True"
| "is_open e = False"

fun is_infer :: "event \<Rightarrow> bool" where
  "is_infer (Infer img c) = True"
| "is_infer e = False"

definition opens :: "event list \<Rightarrow> nat" where
  "opens tr = length (filter is_open tr)"

definition releases :: "event list \<Rightarrow> nat" where
  "releases tr = length (filter (\<lambda>e. e = CapRelease) tr)"

subsection \<open>The words of the specification\<close>

text \<open>The frames a video source can deliver: none when it cannot be opened.\<close>

definition available :: "(string \<Rightarrow> raw_frame list option) \<Rightarrow> string \<Rightarrow> raw_frame list" where
  "available videos video_path = (case videos video_path of None \<Rightarrow> [] | Some fs \<Rightarrow> fs)"

text \<open>
  Step 4 of the specification, for one detection: a rectangle at the bounding box and the
  label ``class name, space, confidence to two decimals'' ten pixels above the box's
  corner, both in the fixed colour and weight. There is no overlay to speak of when the
  class index has no name.
\<close>

definition spec_label :: "string \<Rightarrow> rat \<Rightarrow> string" where
  "spec_label class_name c = class_name @ '' '' @ format_2f c"

definition spec_overlay :: "(int \<rightharpoonup> string) \<Rightarrow> box \<Rightarrow> draw list option" where
  "spec_overlay nm b =
     (case xyxy b of (a1, b1, a2, b2) \<Rightarrow>
        (case nm (py_int (cls b)) of
           None \<Rightarrow> None
         | Some class_name \<Rightarrow>
             Some [Rectangle (py_int a1, py_int b1) (py_int a2, py_int b2) (0, 255, 0) 2,
                   PutText (spec_label class_name (conf b)) (py_int a1, py_int b1 - 10)
                     FONT_HERSHEY_SIMPLEX float_0_5 (0, 255, 0) 2]))"

text \<open>The annotated image: the overlays of every returned detection, in order.\<close>

definition spec_annotate :: "(int \<rightharpoonup> string) \<Rightarrow> frame \<Rightarrow> result list \<Rightarrow> frame option" where
  "spec_annotate nm img rs =
     (case those (map (spec_overlay nm) (concat rs)) of
        None \<Rightarrow> None
      | Some dss \<Rightarrow> Some (img\<lparr>overlays := overlays img @ concat dss\<rparr>))"

text \<open>
  What the model answers when it is called with threshold \<open>0.3\<close> on a list of images in
  turn, starting in the internal state \<open>m\<close>.
\<close>

fun inference_run :: "'m yolo \<Rightarrow> 'm \<Rightarrow> frame list \<Rightarrow> (error + result list) list" where
  "inference_run y m [] = []"
| "inference_run y m (img # imgs) =
     (case predict y m img float_0_3 of (r, m') \<Rightarrow> r # inference_run y m' imgs)"

text \<open>
  The points the pipeline hands to the drawing functions for a detection, the corners of
  its box and the place of its label, are in the range of a C \<open>int\<close>.
\<close>

definition box_in_range :: "box \<Rightarrow> bool" where
  "box_in_range b =
     (case xyxy b of (a1, b1, a2, b2) \<Rightarrow>
        c_int (py_int a1) \<and> c_int (py_int b1) \<and> c_int (py_int a2) \<and> c_int (py_int b2) \<and>
        c_int (py_int b1 - 10))"


text \<open>A deterministic model: what it answers does not depend on its internal state.\<close>

definition deterministic :: "'m yolo \<Rightarrow> bool" where
  "deterministic y \<longleftrightarrow> (\<forall>m m' img c. fst (predict y m img c) = fst (predict y m' img c))"

text \<open>
  A salted record: what is hashed for the user is something other than the bare password,
  whatever the hash function.
\<close>

definition hashed_with_salt :: "string \<Rightarrow> string \<Rightarrow> bool" where
  "hashed_with_salt username password \<longleftrightarrow>
     (\<exists>hashed. hashed \<noteq> password \<and> (\<forall>H. USERS H username = Some (H hashed)))"

subsection \<open>Scenarios\<close>

text \<open>
  The stub of the specification's end-to-end scenario: one detection, box
  \<open>(10,10,50,50)\<close>, score \<open>0.9\<close>, class \<open>0\<close> named \<open>ball\<close>, on every frame. It stands for the
  object \<open>main\<close> builds from the weights file of the model \<open>YOLOv5n6u\<close>.
\<close>

definition ball_stub :: "unit yolo" where
  "ball_stub =
     \<lparr>weights = ''models/best_YOLOv5n6u.pt'', names = [0 \<mapsto> ''ball''],
      predict = (\<lambda>m img c. (Inr [[\<lparr>xyxy = (10, 10, 50, 50), conf = 9 / 10, cls = 0\<rparr>]], m))\<rparr>"

text \<open>The image that scenario expects for a decoded frame.\<close>

definition ball_frame :: "raw_frame \<Rightarrow> frame" where
  "ball_frame raw =
     \<lparr>width = 640, height = 360, resized_from = raw,
      overlays = [Rectangle (10, 10) (50, 50) (0, 255, 0) 2,
                  PutText ''ball 0.90'' (10, 0) FONT_HERSHEY_SIMPLEX (1 / 2) (0, 255, 0) 2]\<rparr>"

text \<open>
  A stub with internal state (it counts its calls) whose answer does not depend on it; the
  score of its detection is below the threshold it is given.
\<close>

definition counting_stub :: "nat yolo" where
  "counting_stub =
     \<lparr>weights = ''models/best_yolov8m.pt'', names = [0 \<mapsto> ''ball''],
      predict = (\<lambda>m img c. (Inr [[\<lparr>xyxy = (10, 10, 50, 50), conf = 1 / 10, cls = 0\<rparr>]], Suc m))\<rparr>"

text \<open>A stub whose inference raises.\<close>

definition failing_stub :: "unit yolo" where
  "failing_stub =
     \<lparr>weights = ''models/best_yolov8m.pt'', names = [0 \<mapsto> ''ball''],
      predict = (\<lambda>m img c. (Inl (ModelError ''size mismatch''), m))\<rparr>"

text \<open>A disk with a video of three frames, a video that opens and has no frame, and nothing else.\<close>

definition demo_videos :: "string \<Rightarrow> raw_frame list option" where
  "demo_videos p =
     (if p = ''videos/modelo_test_video.mp4''
      then Some [\<lparr>native_width = 1920, native_height = 1080, pixels = 0\<rparr>,
                 \<lparr>native_width = 1920, native_height = 1080, pixels = 1\<rparr>,
                 \<lparr>native_width = 1920, native_height = 1080, pixels = 2\<rparr>]
      else if p = ''videos/empty.mp4'' then Some []
      else None)"

definition world0 :: "unit world" where
  "world0 = \<lparr>mstate = (), trace = []\<rparr>"

definition counter0 :: "nat world" where
  "counter0 = \<lparr>mstate = 0, trace = []\<rparr>"

text \<open>
  A machine with nothing cached, a hub that always answers and hands out a regular file,
  and a \<open>YOLO\<close> constructor that loads whatever file exists.
\<close>

definition disk0 :: disk where
  "disk0 = \<lparr>files = Map.empty, downloads = [], messages = []\<rparr>"

definition demo_platform :: platform where
  "demo_platform =
     \<lparr>HF_TOKEN = None,
      hub = (\<lambda>n repo_id filename token. Inr (''/cache/'' @ filename)),
      hub_entry = (\<lambda>p. File),
      hub_blobs = (\<lambda>p. []),
      rename_permitted = (\<lambda>src dst. True)\<rparr>"

definition stub_YOLO :: "disk \<Rightarrow> string \<Rightarrow> error + unit yolo" where
  "stub_YOLO d path =
     (if os_path_exists d path then Inr (ball_stub\<lparr>weights := path\<rparr>) else Inl FileNotFoundError)"



text \<open>A stub whose detection has a corner far outside the range of a C \<open>int\<close>.\<close>

definition wide_stub :: "unit yolo" where
  "wide_stub =
     \<lparr>weights = ''models/best_yolov8m.pt'', names = [0 \<mapsto> ''ball''],
      predict = (\<lambda>m img c. (Inr [[\<lparr>xyxy = (10, 10, 3000000000, 50), conf = 9 / 10, cls = 0\<rparr>]], m))\<rparr>"

section \<open>Properties of the frame pipeline\<close>

declare process_loop.simps [simp del]

subsection \<open>One pass through the loop\<close>

lemma loop_closed:
  "\<not> opened cap \<Longrightarrow> process_loop model ds mf cap pf fc w = (Inr pf, cap, w)"
  by (subst process_loop.simps) (simp add: isOpened_def)

lemma loop_capped:
  "\<not> fc < mf \<Longrightarrow> process_loop model ds mf cap pf fc w = (Inr pf, cap, w)"
  by (subst process_loop.simps) simp

lemma loop_exhausted:
  "opened cap \<Longrightarrow> pending cap = [] \<Longrightarrow> fc < mf \<Longrightarrow>
   process_loop model ds mf cap pf fc w = (Inr pf, cap, emit CapRead w)"
  by (subst process_loop.simps) (simp add: isOpened_def cap_read_def)

lemma loop_step:
  "opened cap \<Longrightarrow> pending cap = raw # rest \<Longrightarrow> fc < mf \<Longrightarrow>
   process_loop model ds mf cap pf fc w =
     (case call_model model (cv2_resize raw ds) float_0_3 (emit CapRead w) of
        (Inl e, w2) \<Rightarrow> (Inl e, cap\<lparr>pending := rest\<rparr>, w2)
      | (Inr results, w2) \<Rightarrow>
          (case draw_results model (cv2_resize raw ds) results of
             Inl e \<Rightarrow> (Inl e, cap\<lparr>pending := rest\<rparr>, w2)
           | Inr annotated \<Rightarrow>
               process_loop model ds mf (cap\<lparr>pending := rest\<rparr>) (pf @ [annotated]) (fc + 1) w2))"
  by (subst process_loop.simps) (simp add: isOpened_def cap_read_def)

lemma select_size_yolo: "select_size (PyYOLO y) = (640, 360)"
  by (simp add: select_size_def)

lemma VideoCapture_eq:
  "VideoCapture videos p w =
     (\<lparr>opened = (videos p \<noteq> None), pending = available videos p\<rparr>, emit (CapOpen p) w)"
  by (simp add: VideoCapture_def available_def split: option.splits)

subsection \<open>The annotation refines step 4 of the specification\<close>

lemma those_append:
  "those (xs @ ys) =
     (case those xs of
        None \<Rightarrow> None
      | Some a \<Rightarrow> (case those ys of None \<Rightarrow> None | Some b \<Rightarrow> Some (a @ b)))"
  by (induction xs) (auto split: option.splits)

lemma draw_box_spec:
  "draw_box (PyYOLO y) img b =
     (case spec_overlay (names y) b of
        None \<Rightarrow> Inl KeyError
      | Some ds \<Rightarrow>
          if box_in_range b then Inr (img\<lparr>overlays := overlays img @ ds\<rparr>) else Inl CvError)"
  by (auto simp: draw_box_def spec_overlay_def spec_label_def cv2_rectangle_def cv2_putText_def
      box_in_range_def Let_def split: prod.splits option.splits)

lemma draw_box_returns:
  assumes "draw_box (PyYOLO y) img b = Inr img'"
  shows "\<exists>ds. spec_overlay (names y) b = Some ds \<and> img' = img\<lparr>overlays := overlays img @ ds\<rparr>"
  using assms by (auto simp: draw_box_spec split: option.splits if_splits)

lemma draw_boxes_returns:
  assumes "draw_boxes (PyYOLO y) img bs = Inr img'"
  shows "\<exists>dss. those (map (spec_overlay (names y)) bs) = Some dss \<and>
           img' = img\<lparr>overlays := overlays img @ concat dss\<rparr>"
  using assms
proof (induction bs arbitrary: img)
  case Nil
  then show ?case by simp
next
  case (Cons b bs)
  from Cons.prems obtain img1 where
    b: "draw_box (PyYOLO y) img b = Inr img1" and bs: "draw_boxes (PyYOLO y) img1 bs = Inr img'"
    by (auto split: sum.splits)
  from draw_box_returns[OF b] obtain ds where
    ds: "spec_overlay (names y) b = Some ds" "img1 = img\<lparr>overlays := overlays img @ ds\<rparr>"
    by blast
  from Cons.IH[OF bs] obtain dss where
    dss: "those (map (spec_overlay (names y)) bs) = Some dss"
      "img' = img1\<lparr>overlays := overlays img1 @ concat dss\<rparr>"
    by blast
  from ds dss have "those (map (spec_overlay (names y)) (b # bs)) = Some (ds # dss)"
    "img' = img\<lparr>overlays := overlays img @ concat (ds # dss)\<rparr>"
    by simp_all
  then show ?case by blast
qed

lemma draw_results_spec:
  assumes "draw_results (PyYOLO y) img rs = Inr img'"
  shows "spec_annotate (names y) img rs = Some img'"
  using assms
proof (induction rs arbitrary: img)
  case Nil
  then show ?case by (simp add: spec_annotate_def)
next
  case (Cons r rs)
  from Cons.prems obtain img1 where
    r: "draw_boxes (PyYOLO y) img r = Inr img1" and rs: "draw_results (PyYOLO y) img1 rs = Inr img'"
    by (auto split: sum.splits)
  from draw_boxes_returns[OF r] obtain dss where
    dss: "those (map (spec_overlay (names y)) r) = Some dss"
      "img1 = img\<lparr>overlays := overlays img @ concat dss\<rparr>"
    by blast
  from Cons.IH[OF rs] have "spec_annotate (names y) img1 rs = Some img'" .
  with dss show ?case
    by (auto simp: spec_annotate_def those_append split: option.splits)
qed



lemma draw_results_frame:
  assumes "draw_results (PyYOLO y) img rs = Inr img'"
  shows "width img' = width img \<and> height img' = height img \<and> resized_from img' = resized_from img"
  using draw_results_spec[OF assms] by (auto simp: spec_annotate_def split: option.splits)

subsection \<open>The float formatting\<close>

lemma round_half_even_near: "\<bar>of_int (round_half_even x) - x\<bar> \<le> 1 / 2"
proof -
  have "of_int \<lfloor>x\<rfloor> \<le> x" "x < of_int \<lfloor>x\<rfloor> + 1" by linarith+
  then show ?thesis by (auto simp: round_half_even_def Let_def)
qed

lemma tens_digit: "(n::nat) mod 100 div 10 < 10"
  by (rule less_mult_imp_div_less) simp

lemma format_2f_shape:
  "\<exists>sign whole d1 d2. format_2f x = sign @ str_nat whole @ ''.'' @ [digit_char d1, digit_char d2]
      \<and> d1 < 10 \<and> d2 < 10 \<and> (sign = [] \<or> sign = ''-'')"
proof -
  let ?h = "nat (round_half_even (\<bar>x\<bar> * 100))"
  let ?s = "if x < 0 then ''-'' else []"
  have "format_2f x = ?s @ str_nat (?h div 100) @ ''.''
         @ [digit_char (?h mod 100 div 10), digit_char (?h mod 10)]
        \<and> ?h mod 100 div 10 < 10 \<and> ?h mod 10 < 10 \<and> (?s = [] \<or> ?s = ''-'')"
    by (simp add: format_2f_def Let_def tens_digit)
  then show ?thesis by blast
qed

lemma format_2f_examples:
  "format_2f (9 / 10) = ''0.90''" "format_2f (1 / 10) = ''0.10''"
  "format_2f (1 / 8) = ''0.12''" "format_2f (3 / 8) = ''0.38''"
  "format_2f (- 1 / 1000) = ''-0.00''" "format_2f float_0_3 = ''0.30''"
  by code_simp+

subsection \<open>What the loop leaves in the trace\<close>

lemma call_model_trace:
  "call_model model img c w = (r, w2) \<Longrightarrow>
   \<exists>evs. trace w2 = trace w @ evs \<and> list_all is_step evs"
  by (cases model) (auto simp: emit_def split: prod.splits)

lemma loop_trace:
  "pending cap = frames \<Longrightarrow> process_loop model ds mf cap pf fc w = (r, cap', w') \<Longrightarrow>
   \<exists>evs. trace w' = trace w @ evs \<and> list_all is_step evs"
proof (induction frames arbitrary: cap pf fc w)
  case Nil
  show ?case
  proof (cases "opened cap \<and> fc < mf")
    case True
    with Nil have "w' = emit CapRead w" by (simp add: loop_exhausted)
    then show ?thesis by (simp add: emit_def)
  next
    case False
    with Nil have "w' = w" by (auto simp: loop_closed loop_capped)
    then show ?thesis by simp
  qed
next
  case (Cons raw rest)
  show ?case
  proof (cases "opened cap \<and> fc < mf")
    case False
    with Cons.prems have "w' = w" by (auto simp: loop_closed loop_capped)
    then show ?thesis by simp
  next
    case True
    obtain r1 w2 where cm: "call_model model (cv2_resize raw ds) float_0_3 (emit CapRead w) = (r1, w2)"
      by (cases "call_model model (cv2_resize raw ds) float_0_3 (emit CapRead w)")
    from call_model_trace[OF cm] obtain evs1 where
      e1: "trace w2 = trace w @ CapRead # evs1" "list_all is_step evs1"
      by (auto simp: emit_def)
    show ?thesis
    proof (cases r1)
      case (Inl e)
      with True Cons.prems cm have "w' = w2" by (simp add: loop_step)
      with e1 show ?thesis by simp
    next
      case (Inr results)
      show ?thesis
      proof (cases "draw_results model (cv2_resize raw ds) results")
        case (Inl e)
        with True Cons.prems cm Inr have "w' = w2" by (simp add: loop_step)
        with e1 show ?thesis by simp
      next
        case (Inr annotated)
        with True Cons.prems cm \<open>r1 = Inr results\<close>
        have "process_loop model ds mf (cap\<lparr>pending := rest\<rparr>) (pf @ [annotated]) (fc + 1) w2 = (r, cap', w')"
          by (simp add: loop_step)
        from Cons.IH[OF _ this] obtain evs2 where
          "trace w' = trace w2 @ evs2" "list_all is_step evs2" by auto
        with e1 show ?thesis by simp
      qed
    qed
  qed
qed

lemma steps_no_open: "list_all is_step evs \<Longrightarrow> filter is_open evs = []"
  by (induction evs) (auto elim: is_step.elims)

lemma steps_no_release: "list_all is_step evs \<Longrightarrow> filter (\<lambda>e. e = CapRelease) evs = []"
  by (induction evs) auto

lemma process_video_trace:
  assumes "process_video videos p model mf w = (r, w')"
  shows "\<exists>evs. list_all is_step evs \<and>
           trace w' = trace w @ CapOpen p # evs @ (case r of Inl e \<Rightarrow> [] | Inr out \<Rightarrow> [CapRelease])"
proof -
  obtain cap w0 where vc: "VideoCapture videos p w = (cap, w0)"
    by (cases "VideoCapture videos p w")
  then have t0: "trace w0 = trace w @ [CapOpen p]"
    by (auto simp: VideoCapture_def emit_def split: option.splits)
  obtain r1 cap1 w1 where lp: "process_loop model (select_size model) mf cap [] 0 w0 = (r1, cap1, w1)"
    by (cases "process_loop model (select_size model) mf cap [] 0 w0")
  from loop_trace[OF refl lp] obtain evs where
    evs: "trace w1 = trace w0 @ evs" "list_all is_step evs" by auto
  show ?thesis
  proof (cases r1)
    case (Inl e)
    with assms vc lp have "r = Inl e" "w' = w1" by (auto simp: process_video_def)
    with evs t0 show ?thesis by auto
  next
    case (Inr out)
    with assms vc lp have "r = Inr out" "w' = snd (cap_release cap1 w1)"
      by (auto simp: process_video_def)
    with evs t0 show ?thesis by (auto simp: cap_release_def emit_def)
  qed
qed

subsection \<open>Runs that return\<close>



lemma loop_deterministic:
  assumes "deterministic y" "pending cap = frames"
  shows "fst (process_loop (PyYOLO y) ds mf cap pf fc w) =
         fst (process_loop (PyYOLO y) ds mf cap pf fc v)"
  using assms(2)
proof (induction frames arbitrary: cap pf fc w v)
  case Nil
  then show ?case
    by (cases "opened cap \<and> fc < mf") (auto simp: loop_exhausted loop_capped loop_closed)
next
  case (Cons raw rest)
  show ?case
  proof (cases "opened cap \<and> fc < mf")
    case False
    then show ?thesis by (auto simp: loop_capped loop_closed)
  next
    case True
    let ?img = "cv2_resize raw ds"
    obtain r1 m1 where p1: "predict y (mstate (emit CapRead w)) ?img float_0_3 = (r1, m1)"
      by (cases "predict y (mstate (emit CapRead w)) ?img float_0_3")
    obtain r2 m2 where p2: "predict y (mstate (emit CapRead v)) ?img float_0_3 = (r2, m2)"
      by (cases "predict y (mstate (emit CapRead v)) ?img float_0_3")
    from assms(1) have "fst (predict y (mstate (emit CapRead w)) ?img float_0_3)
        = fst (predict y (mstate (emit CapRead v)) ?img float_0_3)"
      unfolding deterministic_def by blast
    with p1 p2 have eq: "r2 = r1" by simp
    have s1: "process_loop (PyYOLO y) ds mf cap pf fc w = 
       (case r1 of Inl e \<Rightarrow> (Inl e, cap\<lparr>pending := rest\<rparr>, (emit (Infer ?img float_0_3) (emit CapRead w))\<lparr>mstate := m1\<rparr>)
         | Inr results \<Rightarrow> (case draw_results (PyYOLO y) ?img results of
             Inl e \<Rightarrow> (Inl e, cap\<lparr>pending := rest\<rparr>, (emit (Infer ?img float_0_3) (emit CapRead w))\<lparr>mstate := m1\<rparr>)
           | Inr annotated \<Rightarrow>
               process_loop (PyYOLO y) ds mf (cap\<lparr>pending := rest\<rparr>) (pf @ [annotated]) (fc + 1)
                  ((emit (Infer ?img float_0_3) (emit CapRead w))\<lparr>mstate := m1\<rparr>)))"
      using True Cons.prems p1 by (simp add: loop_step split: sum.splits)
    have s2: "process_loop (PyYOLO y) ds mf cap pf fc v = 
       (case r1 of Inl e \<Rightarrow> (Inl e, cap\<lparr>pending := rest\<rparr>, (emit (Infer ?img float_0_3) (emit CapRead v))\<lparr>mstate := m2\<rparr>)
         | Inr results \<Rightarrow> (case draw_results (PyYOLO y) ?img results of
             Inl e \<Rightarrow> (Inl e, cap\<lparr>pending := rest\<rparr>, (emit (Infer ?img float_0_3) (emit CapRead v))\<lparr>mstate := m2\<rparr>)
           | Inr annotated \<Rightarrow>
               process_loop (PyYOLO y) ds mf (cap\<lparr>pending := rest\<rparr>) (pf @ [annotated]) (fc + 1)
                  ((emit (Infer ?img float_0_3) (emit CapRead v))\<lparr>mstate := m2\<rparr>)))"
      using True Cons.prems p2 eq by (simp add: loop_step split: sum.splits)
    show ?thesis
      unfolding s1 s2
      using Cons.IH[of "cap\<lparr>pending := rest\<rparr>"]
      by (auto split: sum.splits)
  qed
qed

lemma loop_annotated:
  assumes "pending cap = frames"
    and "process_loop (PyYOLO y) ds mf cap pf fc w = (Inr out, cap', w')"
  shows "\<exists>new rss evs.
           out = pf @ new \<and> length new \<le> length frames \<and>
           inference_run y (mstate w) (map (\<lambda>raw. cv2_resize raw ds) (take (length new) frames))
             = map Inr rss \<and>
           map2 (spec_annotate (names y))
             (map (\<lambda>raw. cv2_resize raw ds) (take (length new) frames)) rss = map Some new \<and>
           trace w' = trace w @ evs \<and>
           filter is_infer evs
             = map (\<lambda>raw. Infer (cv2_resize raw ds) float_0_3) (take (length new) frames)"
  using assms
proof (induction frames arbitrary: cap pf fc w)
  case Nil
  show ?case
  proof (cases "opened cap \<and> fc < mf")
    case True
    with Nil have "out = pf" "w' = emit CapRead w" by (simp_all add: loop_exhausted)
    then have "out = pf @ []" "trace w' = trace w @ [CapRead]" by (simp_all add: emit_def)
    then show ?thesis by fastforce
  next
    case False
    with Nil have "out = pf @ []" "trace w' = trace w @ []"
      by (auto simp: loop_closed loop_capped)
    then show ?thesis by fastforce
  qed
next
  case (Cons raw rest)
  show ?case
  proof (cases "opened cap \<and> fc < mf")
    case False
    with Cons.prems have "out = pf @ []" "trace w' = trace w @ []"
      by (auto simp: loop_closed loop_capped)
    then show ?thesis by fastforce
  next
    case True
    let ?img = "cv2_resize raw ds"
    let ?w2 = "\<lambda>m. (emit (Infer ?img float_0_3) (emit CapRead w))\<lparr>mstate := m\<rparr>"
    obtain r1 m1 where p1: "predict y (mstate w) ?img float_0_3 = (r1, m1)"
      by (cases "predict y (mstate w) ?img float_0_3")
    then have cm: "call_model (PyYOLO y) ?img float_0_3 (emit CapRead w) = (r1, ?w2 m1)"
      by (simp add: emit_def)
    from True Cons.prems cm obtain rs where r1: "r1 = Inr rs"
      by (cases r1) (auto simp: loop_step)
    from True Cons.prems cm r1 obtain annotated where
      dr: "draw_results (PyYOLO y) ?img rs = Inr annotated"
      by (cases "draw_results (PyYOLO y) ?img rs") (auto simp: loop_step)
    then have sa: "spec_annotate (names y) ?img rs = Some annotated"
      by (rule draw_results_spec)
    from True Cons.prems cm r1 dr
    have "process_loop (PyYOLO y) ds mf (cap\<lparr>pending := rest\<rparr>) (pf @ [annotated]) (fc + 1) (?w2 m1)
            = (Inr out, cap', w')"
      by (simp add: loop_step)
    from Cons.IH[OF _ this] obtain new rss evs where
      ih: "out = (pf @ [annotated]) @ new" "length new \<le> length rest"
        "inference_run y m1 (map (\<lambda>raw. cv2_resize raw ds) (take (length new) rest)) = map Inr rss"
        "map2 (spec_annotate (names y))
           (map (\<lambda>raw. cv2_resize raw ds) (take (length new) rest)) rss = map Some new"
        "trace w' = trace (?w2 m1) @ evs"
        "filter is_infer evs
           = map (\<lambda>raw. Infer (cv2_resize raw ds) float_0_3) (take (length new) rest)"
      by auto
    let ?new = "annotated # new" and ?rss = "rs # rss"
    let ?evs = "CapRead # Infer ?img float_0_3 # evs"
    have "out = pf @ ?new" using ih(1) by simp
    moreover have "length ?new \<le> length (raw # rest)" using ih(2) by simp
    moreover have "inference_run y (mstate w)
        (map (\<lambda>raw. cv2_resize raw ds) (take (length ?new) (raw # rest))) = map Inr ?rss"
      using p1 r1 ih(3) by simp
    moreover have "map2 (spec_annotate (names y))
        (map (\<lambda>raw. cv2_resize raw ds) (take (length ?new) (raw # rest))) ?rss = map Some ?new"
      using sa ih(4) by simp
    moreover have "trace w' = trace w @ ?evs" using ih(5) by (simp add: emit_def)
    moreover have "filter is_infer ?evs
        = map (\<lambda>raw. Infer (cv2_resize raw ds) float_0_3) (take (length ?new) (raw # rest))"
      using ih(6) by simp
    ultimately show ?thesis by blast
  qed
qed

lemma loop_str:
  assumes "pending cap = frames"
    and "process_loop (PyStr s) ds mf cap pf fc w = (Inr out, cap', w')"
  shows "out = pf"
  using assms
  by (cases frames; cases "opened cap \<and> fc < mf")
     (auto simp: loop_closed loop_capped loop_exhausted loop_step)

lemma loop_sizes:
  assumes "pending cap = frames"
    and "process_loop (PyYOLO y) ds mf cap pf fc w = (Inr out, cap', w')"
  shows "\<exists>new. out = pf @ new \<and> list_all (\<lambda>f. width f = fst ds \<and> height f = snd ds) new"
  using assms
proof (induction frames arbitrary: cap pf fc w)
  case Nil
  then have "out = pf @ []"
    by (cases "opened cap \<and> fc < mf") (auto simp: loop_closed loop_capped loop_exhausted)
  then show ?case by fastforce
next
  case (Cons raw rest)
  show ?case
  proof (cases "opened cap \<and> fc < mf")
    case False
    with Cons.prems have "out = pf @ []" by (auto simp: loop_closed loop_capped)
    then show ?thesis by fastforce
  next
    case True
    let ?img = "cv2_resize raw ds"
    obtain r1 w2 where cm: "call_model (PyYOLO y) ?img float_0_3 (emit CapRead w) = (r1, w2)"
      by (cases "call_model (PyYOLO y) ?img float_0_3 (emit CapRead w)")
    from True Cons.prems cm obtain rs where r1: "r1 = Inr rs"
      by (cases r1) (auto simp: loop_step)
    from True Cons.prems cm r1 obtain annotated where
      dr: "draw_results (PyYOLO y) ?img rs = Inr annotated"
      by (cases "draw_results (PyYOLO y) ?img rs") (auto simp: loop_step)
    from draw_results_frame[OF dr]
    have sz: "width annotated = fst ds \<and> height annotated = snd ds"
      by (simp add: cv2_resize_def)
    from True Cons.prems cm r1 dr
    have "process_loop (PyYOLO y) ds mf (cap\<lparr>pending := rest\<rparr>) (pf @ [annotated]) (fc + 1) w2
            = (Inr out, cap', w')"
      by (simp add: loop_step)
    from Cons.IH[OF _ this] obtain new where
      "out = (pf @ [annotated]) @ new" "list_all (\<lambda>f. width f = fst ds \<and> height f = snd ds) new"
      by auto
    with sz have "out = pf @ (annotated # new)"
      "list_all (\<lambda>f. width f = fst ds \<and> height f = snd ds) (annotated # new)"
      by simp_all
    then show ?thesis by blast
  qed
qed

lemma returned_frames_640x360:
  assumes "process_video videos p model mf w = (Inr out, w')"
  shows "list_all (\<lambda>f. width f = 640 \<and> height f = 360) out"
proof (cases model)
  case (PyStr s)
  obtain r1 cap1 w1 where lp: "process_loop model (select_size model) mf
      \<lparr>opened = (videos p \<noteq> None), pending = available videos p\<rparr> [] 0 (emit (CapOpen p) w) = (r1, cap1, w1)"
    by (metis prod_cases3)
  with assms have "r1 = Inr out"
    by (auto simp: process_video_def VideoCapture_eq split: sum.splits)
  with lp PyStr loop_str[OF refl] have "out = []" by blast
  then show ?thesis by simp
next
  case (PyYOLO y)
  obtain r1 cap1 w1 where lp: "process_loop model (select_size model) mf
      \<lparr>opened = (videos p \<noteq> None), pending = available videos p\<rparr> [] 0 (emit (CapOpen p) w) = (r1, cap1, w1)"
    by (metis prod_cases3)
  with assms have "r1 = Inr out"
    by (auto simp: process_video_def VideoCapture_eq split: sum.splits)
  with lp PyYOLO loop_sizes[OF refl, of y "(640, 360)" mf _ "[]" 0 "emit (CapOpen p) w" out cap1 w1]
  show ?thesis by (simp add: select_size_yolo)
qed

lemma process_video_deterministic:
  assumes "deterministic y"
  shows "fst (process_video videos p (PyYOLO y) mf w) = fst (process_video videos p (PyYOLO y) mf v)"
proof -
  let ?cap = "\<lparr>opened = (videos p \<noteq> None), pending = available videos p\<rparr>"
  have "fst (process_loop (PyYOLO y) (640, 360) mf ?cap [] 0 (emit (CapOpen p) w))
      = fst (process_loop (PyYOLO y) (640, 360) mf ?cap [] 0 (emit (CapOpen p) v))"
    by (rule loop_deterministic[OF assms refl])
  then show ?thesis
    by (auto simp: process_video_def VideoCapture_eq select_size_yolo split: prod.splits sum.splits)
qed

subsection \<open>The inference calls of any run\<close>

text \<open>
  Whether the call returns or ends with an exception, the model was called on the first
  \<open>k\<close> frames of the source, resized, in order, each time with the threshold \<open>0.3\<close>, and on
  nothing else.
\<close>

lemma loop_infer_calls:
  assumes "pending cap = frames"
    and "process_loop (PyYOLO y) ds mf cap pf fc w = (r, cap', w')"
  shows "\<exists>k evs. k \<le> length frames \<and> trace w' = trace w @ evs \<and>
           filter is_infer evs = map (\<lambda>raw. Infer (cv2_resize raw ds) float_0_3) (take k frames)"
  using assms
proof (induction frames arbitrary: cap pf fc w)
  case Nil
  have "trace w' = trace w @ [] \<or> trace w' = trace w @ [CapRead]"
    using Nil by (cases "opened cap \<and> fc < mf")
      (auto simp: loop_closed loop_capped loop_exhausted emit_def)
  then show ?case by fastforce
next
  case (Cons raw rest)
  show ?case
  proof (cases "opened cap \<and> fc < mf")
    case False
    with Cons.prems have "trace w' = trace w @ []" by (auto simp: loop_closed loop_capped)
    then have "0 \<le> length (raw # rest) \<and> trace w' = trace w @ [] \<and>
        filter is_infer [] = map (\<lambda>raw. Infer (cv2_resize raw ds) float_0_3) (take 0 (raw # rest))"
      by simp
    then show ?thesis by blast
  next
    case True
    let ?img = "cv2_resize raw ds"
    let ?w2 = "\<lambda>m. (emit (Infer ?img float_0_3) (emit CapRead w))\<lparr>mstate := m\<rparr>"
    obtain r1 m1 where p1: "predict y (mstate w) ?img float_0_3 = (r1, m1)"
      by (cases "predict y (mstate w) ?img float_0_3")
    then have cm: "call_model (PyYOLO y) ?img float_0_3 (emit CapRead w) = (r1, ?w2 m1)"
      by (simp add: emit_def)
    have one: "trace (?w2 m1) = trace w @ [CapRead, Infer ?img float_0_3]"
      by (simp add: emit_def)
    have stop: "w' = ?w2 m1 \<Longrightarrow> ?thesis"
    proof -
      assume "w' = ?w2 m1"
      with one have "Suc 0 \<le> length (raw # rest) \<and>
          trace w' = trace w @ [CapRead, Infer ?img float_0_3] \<and>
          filter is_infer [CapRead, Infer ?img float_0_3]
            = map (\<lambda>raw. Infer (cv2_resize raw ds) float_0_3) (take (Suc 0) (raw # rest))"
        by simp
      then show ?thesis by blast
    qed
    show ?thesis
    proof (cases r1)
      case (Inl e)
      with True Cons.prems cm have "w' = ?w2 m1" by (simp add: loop_step)
      then show ?thesis by (rule stop)
    next
      case (Inr rs)
      show ?thesis
      proof (cases "draw_results (PyYOLO y) ?img rs")
        case (Inl e)
        with True Cons.prems cm Inr have "w' = ?w2 m1" by (simp add: loop_step)
        then show ?thesis by (rule stop)
      next
        case (Inr annotated)
        with True Cons.prems cm \<open>r1 = Inr rs\<close>
        have "process_loop (PyYOLO y) ds mf (cap\<lparr>pending := rest\<rparr>) (pf @ [annotated]) (fc + 1)
                (?w2 m1) = (r, cap', w')"
          by (simp add: loop_step)
        from Cons.IH[OF _ this] obtain k evs where
          ih: "k \<le> length rest" "trace w' = trace (?w2 m1) @ evs"
            "filter is_infer evs = map (\<lambda>raw. Infer (cv2_resize raw ds) float_0_3) (take k rest)"
          by auto
        then have "Suc k \<le> length (raw # rest) \<and>
            trace w' = trace w @ (CapRead # Infer ?img float_0_3 # evs) \<and>
            filter is_infer (CapRead # Infer ?img float_0_3 # evs)
              = map (\<lambda>raw. Infer (cv2_resize raw ds) float_0_3) (take (Suc k) (raw # rest))"
          using one by simp
        then show ?thesis by blast
      qed
    qed
  qed
qed

lemma inference_calls:
  assumes "process_video videos p (PyYOLO y) max_frames w = (r, w')"
  shows "\<exists>k evs. k \<le> length (available videos p) \<and> trace w' = trace w @ evs \<and>
           filter is_infer evs
             = map (\<lambda>raw. Infer (cv2_resize raw (640, 360)) float_0_3) (take k (available videos p))"
proof -
  let ?cap = "\<lparr>opened = (videos p \<noteq> None), pending = available videos p\<rparr>"
  obtain r1 cap1 w1 where
    lp: "process_loop (PyYOLO y) (640, 360) max_frames ?cap [] 0 (emit (CapOpen p) w) = (r1, cap1, w1)"
    by (cases "process_loop (PyYOLO y) (640, 360) max_frames ?cap [] 0 (emit (CapOpen p) w)")
  from loop_infer_calls[OF _ lp] obtain k evs where
    a: "k \<le> length (available videos p)" "trace w1 = trace w @ CapOpen p # evs"
      "filter is_infer evs
         = map (\<lambda>raw. Infer (cv2_resize raw (640, 360)) float_0_3) (take k (available videos p))"
    by (auto simp: emit_def)
  have "w' = w1 \<or> w' = snd (cap_release cap1 w1)"
    using assms lp
    by (auto simp: process_video_def VideoCapture_eq select_size_yolo split: sum.splits)
  then have "trace w' = trace w @ (CapOpen p # evs) \<or> trace w' = trace w @ (CapOpen p # evs @ [CapRelease])"
    using a(2) by (auto simp: cap_release_def emit_def)
  moreover have "filter is_infer (CapOpen p # evs) = filter is_infer evs"
    "filter is_infer (CapOpen p # evs @ [CapRelease]) = filter is_infer evs"
    by simp_all
  ultimately show ?thesis using a(1,3) by metis
qed

subsection \<open>The scenarios, evaluated\<close>

lemma demo_frames:
  "available demo_videos ''videos/modelo_test_video.mp4''
     = [\<lparr>native_width = 1920, native_height = 1080, pixels = 0\<rparr>,
        \<lparr>native_width = 1920, native_height = 1080, pixels = 1\<rparr>,
        \<lparr>native_width = 1920, native_height = 1080, pixels = 2\<rparr>]"
  by (simp add: available_def demo_videos_def)

lemma world0_trace: "trace world0 = []"
  by (simp add: world0_def)

lemma counter0_simps: "trace counter0 = []" "mstate counter0 = 0"
  by (simp_all add: counter0_def)


lemma counting_stub_deterministic: "deterministic counting_stub"
  by (simp add: deterministic_def counting_stub_def)

lemma ball_run_capped:
  "process_video demo_videos ''videos/modelo_test_video.mp4'' (PyYOLO ball_stub) 2 world0 =
     (Inr [\<lparr>width = 640, height = 360,
            resized_from = \<lparr>native_width = 1920, native_height = 1080, pixels = 0\<rparr>,
            overlays = [Rectangle (10, 10) (50, 50) (0, 255, 0) 2,
                        PutText ''ball 0.90'' (10, 0) FONT_HERSHEY_SIMPLEX (1 / 2) (0, 255, 0) 2]\<rparr>,
           \<lparr>width = 640, height = 360,
            resized_from = \<lparr>native_width = 1920, native_height = 1080, pixels = 1\<rparr>,
            overlays = [Rectangle (10, 10) (50, 50) (0, 255, 0) 2,
                        PutText ''ball 0.90'' (10, 0) FONT_HERSHEY_SIMPLEX (1 / 2) (0, 255, 0) 2]\<rparr>],
      \<lparr>mstate = (),
       trace = [CapOpen ''videos/modelo_test_video.mp4'',
                CapRead,
                Infer \<lparr>width = 640, height = 360,
                       resized_from = \<lparr>native_width = 1920, native_height = 1080, pixels = 0\<rparr>,
                       overlays = []\<rparr> float_0_3,
                CapRead,
                Infer \<lparr>width = 640, height = 360,
                       resized_from = \<lparr>native_width = 1920, native_height = 1080, pixels = 1\<rparr>,
                       overlays = []\<rparr> float_0_3,
                CapRelease]\<rparr>)"
  by code_simp

lemma failing_run:
  "process_video demo_videos ''videos/modelo_test_video.mp4'' (PyYOLO failing_stub) 100 world0 =
     (Inl (ModelError ''size mismatch''),
      \<lparr>mstate = (),
       trace = [CapOpen ''videos/modelo_test_video.mp4'',
                CapRead,
                Infer \<lparr>width = 640, height = 360,
                       resized_from = \<lparr>native_width = 1920, native_height = 1080, pixels = 0\<rparr>,
                       overlays = []\<rparr> float_0_3]\<rparr>)"
  by code_simp

lemma empty_run:
  "process_video demo_videos ''videos/empty.mp4'' (PyYOLO ball_stub) 100 world0 =
     (Inr [], \<lparr>mstate = (), trace = [CapOpen ''videos/empty.mp4'', CapRead, CapRelease]\<rparr>)"
  by code_simp

lemma missing_run:
  "process_video demo_videos ''videos/missing.mp4'' (PyYOLO ball_stub) 100 world0 =
     (Inr [], \<lparr>mstate = (), trace = [CapOpen ''videos/missing.mp4'', CapRelease]\<rparr>)"
  by code_simp

lemma ball_run_full:
  "process_video demo_videos ''videos/modelo_test_video.mp4'' (PyYOLO ball_stub) 100 world0 =
     (Inr [\<lparr>width = 640, height = 360,
            resized_from = \<lparr>native_width = 1920, native_height = 1080, pixels = 0\<rparr>,
            overlays = [Rectangle (10, 10) (50, 50) (0, 255, 0) 2,
                        PutText ''ball 0.90'' (10, 0) FONT_HERSHEY_SIMPLEX (1 / 2) (0, 255, 0) 2]\<rparr>,
           \<lparr>width = 640, height = 360,
            resized_from = \<lparr>native_width = 1920, native_height = 1080, pixels = 1\<rparr>,
            overlays = [Rectangle (10, 10) (50, 50) (0, 255, 0) 2,
                        PutText ''ball 0.90'' (10, 0) FONT_HERSHEY_SIMPLEX (1 / 2) (0, 255, 0) 2]\<rparr>,
           \<lparr>width = 640, height = 360,
            resized_from = \<lparr>native_width = 1920, native_height = 1080, pixels = 2\<rparr>,
            overlays = [Rectangle (10, 10) (50, 50) (0, 255, 0) 2,
                        PutText ''ball 0.90'' (10, 0) FONT_HERSHEY_SIMPLEX (1 / 2) (0, 255, 0) 2]\<rparr>],
      \<lparr>mstate = (),
       trace = [CapOpen ''videos/modelo_test_video.mp4'',
                CapRead,
                Infer \<lparr>width = 640, height = 360,
                       resized_from = \<lparr>native_width = 1920, native_height = 1080, pixels = 0\<rparr>,
                       overlays = []\<rparr> float_0_3,
                CapRead,
                Infer \<lparr>width = 640, height = 360,
                       resized_from = \<lparr>native_width = 1920, native_height = 1080, pixels = 1\<rparr>,
                       overlays = []\<rparr> float_0_3,
                CapRead,
                Infer \<lparr>width = 640, height = 360,
                       resized_from = \<lparr>native_width = 1920, native_height = 1080, pixels = 2\<rparr>,
                       overlays = []\<rparr> float_0_3,
                CapRead,
                CapRelease]\<rparr>)"
  by code_simp

lemma counting_run:
  "process_video demo_videos ''videos/modelo_test_video.mp4'' (PyYOLO counting_stub) 1 counter0 =
     (Inr [\<lparr>width = 640, height = 360,
            resized_from = \<lparr>native_width = 1920, native_height = 1080, pixels = 0\<rparr>,
            overlays = [Rectangle (10, 10) (50, 50) (0, 255, 0) 2,
                        PutText ''ball 0.10'' (10, 0) FONT_HERSHEY_SIMPLEX (1 / 2) (0, 255, 0) 2]\<rparr>],
      \<lparr>mstate = 1,
       trace = [CapOpen ''videos/modelo_test_video.mp4'',
                CapRead,
                Infer \<lparr>width = 640, height = 360,
                       resized_from = \<lparr>native_width = 1920, native_height = 1080, pixels = 0\<rparr>,
                       overlays = []\<rparr> float_0_3,
                CapRelease]\<rparr>)"
  by code_simp

lemma demo_load:
  "main_load_model demo_platform stub_YOLO ''YOLOv5n6u'' disk0 =
     (Inr (Loaded ball_stub),
      \<lparr>files = [''models/best_YOLOv5n6u.pt'' \<mapsto> File],
       downloads = [(''Marxx01/yolo_basket'', ''best_YOLOv5n6u.pt'')],
       messages = [''Descargando best_YOLOv5n6u.pt desde Hugging Face...'',
                   ''best_YOLOv5n6u.pt descargado correctamente!'',
                   ''Modelo YOLOv5n6u cargado correctamente'']\<rparr>)"
  by (simp add: main_load_model_def MODELOS_HF_def MODELOS_HF_items_def descargar_archivo_hf_def
      os_path_join_def os_path_exists_def disk0_def st_message_def hf_hub_download_def
      demo_platform_def os_rename_def truthy_def stub_YOLO_def ball_stub_def HF_REPO_ID_def
      eval_nat_numeral)

text \<open>
  A detection with a corner outside the range of a C \<open>int\<close>: the drawing raises on the
  first frame and the call ends with that exception.
\<close>

lemma wide_run:
  "fst (process_video demo_videos ''videos/modelo_test_video.mp4'' (PyYOLO wide_stub) 100 world0)
     = Inl CvError"
  by code_simp

subsection \<open>The end-to-end scenario of the specification\<close>

text \<open>
  With the stub that returns one detection on every frame, the call returns one image for
  each of the first \<open>max_frames\<close> frames, each with the rectangle at \<open>(10,10)-(50,50)\<close> and
  the label \<open>ball 0.90\<close>: 100 images for a video of 250 frames and the default cap.
\<close>

lemma ball_step:
  "predict ball_stub m img c = (Inr [[\<lparr>xyxy = (10, 10, 50, 50), conf = 9 / 10, cls = 0\<rparr>]], m)"
  "draw_box (PyYOLO ball_stub) (cv2_resize raw (640, 360))
     \<lparr>xyxy = (10, 10, 50, 50), conf = 9 / 10, cls = 0\<rparr> = Inr (ball_frame raw)"
  by (simp_all add: ball_stub_def draw_box_def cv2_resize_def cv2_rectangle_def cv2_putText_def
      c_int_def
      py_int_def format_2f_examples float_0_5_def ball_frame_def)

lemma ball_loop:
  "fst (process_loop (PyYOLO ball_stub) (640, 360) mf \<lparr>opened = True, pending = fs\<rparr> pf fc w)
     = Inr (pf @ map ball_frame (take (nat (mf - fc)) fs))"
proof (induction fs arbitrary: pf fc w)
  case Nil
  then show ?case by (cases "fc < mf") (simp_all add: loop_exhausted loop_capped)
next
  case (Cons raw rest)
  show ?case
  proof (cases "fc < mf")
    case False
    then show ?thesis by (simp add: loop_capped)
  next
    case True
    then have n: "nat (mf - fc) = Suc (nat (mf - (fc + 1)))" by simp
    show ?thesis
      using True Cons.IH[of "pf @ [ball_frame raw]" "fc + 1"]
      by (simp add: loop_step ball_step n)
  qed
qed

lemma spec_scenario:
  assumes "videos p = Some fs"
  shows "fst (process_video videos p (PyYOLO ball_stub) mf w) = Inr (map ball_frame (take (nat mf) fs))"
proof -
  have "fst (process_loop (PyYOLO ball_stub) (640, 360) mf \<lparr>opened = True, pending = fs\<rparr> [] 0
               (emit (CapOpen p) w)) = Inr (map ball_frame (take (nat mf) fs))"
    using ball_loop[of mf fs "[]" 0] by simp
  then show ?thesis using assms
    by (auto simp: process_video_def VideoCapture_def select_size_yolo split: prod.splits sum.splits)
qed

lemma spec_scenario_250:
  assumes "videos p = Some fs" "length fs = 250"
  shows "\<exists>out. fst (process_video videos p (PyYOLO ball_stub) 100 w) = Inr out \<and> length out = 100 \<and>
           list_all (\<lambda>f. overlays f = [Rectangle (10, 10) (50, 50) (0, 255, 0) 2,
                  PutText ''ball 0.90'' (10, 0) FONT_HERSHEY_SIMPLEX (1 / 2) (0, 255, 0) 2]) out"
  using spec_scenario[of videos p fs 100 w] assms
  by (simp add: list_all_iff ball_frame_def)

subsection \<open>The claims about the pipeline\<close>

text \<open>
  Claim C1. The frame size is looked up from the model: \<open>best_YOLOv5n6u.pt\<close> gives
  1280x1280, every other model 640x360. The code compares the parameter \<open>model\<close>, which
  \<open>main\<close> binds to the loaded \<open>YOLO\<close> object, with the file name, so the comparison is never
  true for a model that can run: selecting YOLOv5n6u in \<open>main\<close> loads
  \<open>models/best_YOLOv5n6u.pt\<close>, and the frames \<open>process_video\<close> returns for it are 640x360.
\<close>

theorem yolov5n6u_frames_are_640x360:
  "\<exists>model d out w.
     main_load_model demo_platform stub_YOLO ''YOLOv5n6u'' disk0 = (Inr (Loaded model), d) \<and>
     weights model = ''models/best_YOLOv5n6u.pt'' \<and>
     main_process_video demo_videos ''videos/modelo_test_video.mp4'' model world0 = (Inr out, w) \<and>
     map (\<lambda>f. (width f, height f)) out = [(640, 360), (640, 360), (640, 360)]"
  by (simp add: demo_load main_process_video_def ball_run_full) (simp add: ball_stub_def)



text \<open>
  Claim C3, as amended. The capture is opened exactly once on every call. When the call
  returns (the cap is reached, the source is exhausted or cannot be opened) it is released
  exactly once, as the last action. When inference raises, the exception leaves
  \<open>process_video\<close> and the function does not release the capture.
\<close>

theorem handle_opened_once_released_on_return:
  "case process_video videos p model max_frames w of
     (Inr out, w') \<Rightarrow>
        opens (trace w') = opens (trace w) + 1 \<and>
        releases (trace w') = releases (trace w) + 1 \<and>
        last (trace w') = CapRelease
   | (Inl e, w') \<Rightarrow>
        opens (trace w') = opens (trace w) + 1 \<and>
        releases (trace w') = releases (trace w)"
proof -
  obtain r w' where pv: "process_video videos p model max_frames w = (r, w')"
    by (cases "process_video videos p model max_frames w")
  from process_video_trace[OF pv] obtain evs where
    evs: "list_all is_step evs"
      "trace w' = trace w @ CapOpen p # evs @ (case r of Inl e \<Rightarrow> [] | Inr out \<Rightarrow> [CapRelease])"
    by auto
  show ?thesis
    using pv evs steps_no_open[OF evs(1)] steps_no_release[OF evs(1)]
    by (cases r) (simp_all add: opens_def releases_def)
qed

text \<open>
  Witness for C3: a run that returns; one open, one release, the release last.
\<close>

theorem handle_opened_once_released_on_return_witness:
  "opens (trace (snd (process_video demo_videos ''videos/modelo_test_video.mp4''
                        (PyYOLO ball_stub) 2 world0))) = 1 \<and>
   releases (trace (snd (process_video demo_videos ''videos/modelo_test_video.mp4''
                           (PyYOLO ball_stub) 2 world0))) = 1 \<and>
   last (trace (snd (process_video demo_videos ''videos/modelo_test_video.mp4''
                       (PyYOLO ball_stub) 2 world0))) = CapRelease"
  using handle_opened_once_released_on_return
          [where videos = demo_videos and p = "''videos/modelo_test_video.mp4''"
             and model = "PyYOLO ball_stub" and max_frames = 2 and w = world0]
  by (simp add: ball_run_capped world0_trace opens_def releases_def)

text \<open>
  Counterexample to C3 as stated: the inference of the model raises on the first frame;
  the call ends with that exception, the capture was opened and never released.
\<close>

theorem handle_not_released_on_exception:
  "fst (process_video demo_videos ''videos/modelo_test_video.mp4'' (PyYOLO failing_stub) 100 world0)
     = Inl (ModelError ''size mismatch'') \<and>
   opens (trace (snd (process_video demo_videos ''videos/modelo_test_video.mp4''
                        (PyYOLO failing_stub) 100 world0))) = 1 \<and>
   releases (trace (snd (process_video demo_videos ''videos/modelo_test_video.mp4''
                           (PyYOLO failing_stub) 100 world0))) = 0"
  by (simp add: failing_run opens_def releases_def)

text \<open>
  Claim C4, as amended. A source that cannot be opened, or that opens and has no frame,
  gives the empty list and no exception, whatever the model and the cap; no inference is
  run and the model is left as it was. When the source cannot be opened the loop body is
  not entered: the capture is opened and released, nothing else. When it opens and has no
  frame the body is entered once if the cap is positive: the read fails and the loop is
  left before the frame is resized.
\<close>

theorem no_frames_no_error:
  "(videos p = None \<longrightarrow>
      process_video videos p model max_frames w
        = (Inr [], w\<lparr>trace := trace w @ [CapOpen p, CapRelease]\<rparr>)) \<and>
   (videos p = Some [] \<longrightarrow>
      process_video videos p model max_frames w
        = (Inr [], w\<lparr>trace := trace w @ CapOpen p # (if 0 < max_frames then [CapRead] else [])
                                   @ [CapRelease]\<rparr>))"
  by (auto simp: process_video_def VideoCapture_def loop_closed loop_capped loop_exhausted
      cap_release_def emit_def)

text \<open>Witness for C4: a path that is not there, and the video without frames.\<close>

theorem no_frames_no_error_witness:
  "demo_videos ''videos/missing.mp4'' = None \<and>
   process_video demo_videos ''videos/missing.mp4'' (PyYOLO ball_stub) 100 world0
     = (Inr [], \<lparr>mstate = (), trace = [CapOpen ''videos/missing.mp4'', CapRelease]\<rparr>) \<and>
   demo_videos ''videos/empty.mp4'' = Some [] \<and>
   process_video demo_videos ''videos/empty.mp4'' (PyStr ''best_YOLOv5n6u.pt'') 100 world0
     = (Inr [], \<lparr>mstate = (), trace = [CapOpen ''videos/empty.mp4'', CapRead, CapRelease]\<rparr>)"
proof -
  have m: "demo_videos ''videos/missing.mp4'' = None"
    and e: "demo_videos ''videos/empty.mp4'' = Some []"
    by (simp_all add: demo_videos_def)
  from no_frames_no_error[of demo_videos "''videos/missing.mp4''" "PyYOLO ball_stub" 100 world0]
    no_frames_no_error[of demo_videos "''videos/empty.mp4''" "PyStr ''best_YOLOv5n6u.pt''" 100 world0]
    m e
  show ?thesis by (simp add: world0_def)
qed

text \<open>
  Counterexample to C4 as stated: the video opens and has no frame, the cap is the default
  100. The loop body is entered and \<open>cap.read()\<close> is called in it.
\<close>

theorem empty_video_enters_loop:
  "demo_videos ''videos/empty.mp4'' = Some [] \<and>
   trace (snd (process_video demo_videos ''videos/empty.mp4'' (PyYOLO ball_stub) 100 world0))
     = [CapOpen ''videos/empty.mp4'', CapRead, CapRelease]"
  by (simp add: empty_run demo_videos_def)

text \<open>
  Claim C5. With \<open>max_frames = 0\<close> the result is the empty list whatever the video and the
  model; the capture is opened and released, and nothing else happens.
\<close>

theorem process_video_zero_cap:
  "process_video videos p model 0 w = (Inr [], w\<lparr>trace := trace w @ [CapOpen p, CapRelease]\<rparr>)"
  by (simp add: process_video_def VideoCapture_def loop_capped cap_release_def emit_def
      split: option.splits)

text \<open>Witness for C5: the video of three frames.\<close>

theorem process_video_zero_cap_witness:
  "process_video demo_videos ''videos/modelo_test_video.mp4'' (PyYOLO ball_stub) 0 world0
     = (Inr [], \<lparr>mstate = (), trace = [CapOpen ''videos/modelo_test_video.mp4'', CapRelease]\<rparr>)"
  using process_video_zero_cap[of demo_videos "''videos/modelo_test_video.mp4''" "PyYOLO ball_stub" world0]
  by (simp add: world0_def)

text \<open>
  Claim C6. In each iteration inference is called on the resized frame with the threshold
  \<open>0.3\<close>, and every detection it returns is drawn, without a second filter: a rectangle
  at its box and the label ``class name, space, confidence to two decimals'' above it, in
  the fixed colour and weight. Here: when the call returns the images \<open>out\<close>, the model was
  called, in order and with threshold \<open>0.3\<close>, on exactly the first \<open>length out\<close> frames
  resized to 640x360; it answered with detections each time; and each returned image is
  the resized frame with the overlays the specification prescribes for all of them. (For
  the calls of a run that ends with an exception see \<open>inference_calls\<close>.)
\<close>

theorem annotation_of_returned_frames:
  assumes "process_video videos p (PyYOLO y) max_frames w = (Inr out, w')"
  shows "\<exists>rss evs.
           inference_run y (mstate w)
             (map (\<lambda>raw. cv2_resize raw (640, 360)) (take (length out) (available videos p)))
             = map Inr rss \<and>
           map2 (spec_annotate (names y))
             (map (\<lambda>raw. cv2_resize raw (640, 360)) (take (length out) (available videos p))) rss
             = map Some out \<and>
           trace w' = trace w @ evs \<and>
           filter is_infer evs
             = map (\<lambda>raw. Infer (cv2_resize raw (640, 360)) float_0_3)
                 (take (length out) (available videos p))"
proof -
  let ?cap = "\<lparr>opened = (videos p \<noteq> None), pending = available videos p\<rparr>"
  obtain r1 cap1 w1 where
    lp: "process_loop (PyYOLO y) (640, 360) max_frames ?cap [] 0 (emit (CapOpen p) w) = (r1, cap1, w1)"
    by (cases "process_loop (PyYOLO y) (640, 360) max_frames ?cap [] 0 (emit (CapOpen p) w)")
  with assms have r1: "r1 = Inr out" and w': "w' = snd (cap_release cap1 w1)"
    by (auto simp: process_video_def VideoCapture_eq select_size_yolo split: sum.splits)
  from loop_annotated[OF _ lp[unfolded r1]] obtain rss evs where
    la: "inference_run y (mstate w)
           (map (\<lambda>raw. cv2_resize raw (640, 360)) (take (length out) (available videos p)))
           = map Inr rss"
      "map2 (spec_annotate (names y))
           (map (\<lambda>raw. cv2_resize raw (640, 360)) (take (length out) (available videos p))) rss
           = map Some out"
      "trace w1 = trace (emit (CapOpen p) w) @ evs"
      "filter is_infer evs
           = map (\<lambda>raw. Infer (cv2_resize raw (640, 360)) float_0_3)
               (take (length out) (available videos p))"
    by (auto simp: emit_def)
  have "trace w' = trace w @ (CapOpen p # evs @ [CapRelease])"
    using w' la(3) by (simp add: cap_release_def emit_def)
  moreover have "filter is_infer (CapOpen p # evs @ [CapRelease])
      = map (\<lambda>raw. Infer (cv2_resize raw (640, 360)) float_0_3)
          (take (length out) (available videos p))"
    using la(4) by simp
  ultimately show ?thesis using la(1,2) by blast
qed

text \<open>
  Witness for C6: the stub whose detection has the score \<open>0.1\<close>, below the threshold it
  was given. The detection is drawn all the same, with the label \<open>ball 0.10\<close>.
\<close>

theorem annotation_of_returned_frames_witness:
  "\<exists>out w' rss evs.
     process_video demo_videos ''videos/modelo_test_video.mp4'' (PyYOLO counting_stub) 1 counter0
       = (Inr out, w') \<and>
     map overlays out
       = [[Rectangle (10, 10) (50, 50) (0, 255, 0) 2,
           PutText ''ball 0.10'' (10, 0) FONT_HERSHEY_SIMPLEX (1 / 2) (0, 255, 0) 2]] \<and>
     inference_run counting_stub 0
       [cv2_resize \<lparr>native_width = 1920, native_height = 1080, pixels = 0\<rparr> (640, 360)]
       = map Inr rss \<and>
     map2 (spec_annotate (names counting_stub))
       [cv2_resize \<lparr>native_width = 1920, native_height = 1080, pixels = 0\<rparr> (640, 360)] rss
       = map Some out \<and>
     trace w' = evs \<and>
     filter is_infer evs
       = [Infer (cv2_resize \<lparr>native_width = 1920, native_height = 1080, pixels = 0\<rparr> (640, 360))
            float_0_3]"
  using annotation_of_returned_frames[OF counting_run]
  by (simp add: counting_run demo_frames counter0_simps)

text \<open>
  Claim C7. Two calls with the same video, the same cap and the same deterministic model
  give the same output. Here the second call starts in the state the first one left (the
  model may have changed its internal state, the trace has grown), and it ends as the first
  did: with the same list of images, hence the same dimensions and the same overlays frame
  by frame, or with the same exception.
\<close>

theorem process_video_repeatable:
  assumes "deterministic y"
  shows "fst (process_video videos p (PyYOLO y) max_frames
                (snd (process_video videos p (PyYOLO y) max_frames w)))
         = fst (process_video videos p (PyYOLO y) max_frames w)"
  by (rule process_video_deterministic[OF assms])

text \<open>
  Witness for C7: the stub that counts its calls. The first call leaves the counter at 1;
  the second call, started there, returns what the first returned.
\<close>

theorem process_video_repeatable_witness:
  "deterministic counting_stub \<and>
   mstate (snd (process_video demo_videos ''videos/modelo_test_video.mp4''
                  (PyYOLO counting_stub) 1 counter0)) = 1 \<and>
   mstate counter0 = 0 \<and>
   fst (process_video demo_videos ''videos/modelo_test_video.mp4'' (PyYOLO counting_stub) 1
          (snd (process_video demo_videos ''videos/modelo_test_video.mp4''
                  (PyYOLO counting_stub) 1 counter0)))
     = fst (process_video demo_videos ''videos/modelo_test_video.mp4''
              (PyYOLO counting_stub) 1 counter0)"
  using process_video_repeatable[OF counting_stub_deterministic,
          of demo_videos "''videos/modelo_test_video.mp4''" 1 counter0]
  by (simp add: counting_stub_deterministic counting_run counter0_simps)

section \<open>Properties of the asset fetcher\<close>

lemma exists_File: "files d p = Some File \<Longrightarrow> p \<noteq> [] \<Longrightarrow> os_path_exists d p"
  by (simp add: os_path_exists_def eval_nat_numeral)

lemma descargar_cached:
  "os_path_exists d save_path \<Longrightarrow>
   descargar_archivo_hf pf repo_id filename save_path d = (Inr save_path, d)"
  by (simp add: descargar_archivo_hf_def)

lemma descargar_returns:
  assumes "descargar_archivo_hf pf repo_id filename save_path d = (Inr r, d')"
  shows "r = save_path \<and> r \<noteq> []"
  using assms
  by (auto simp: descargar_archivo_hf_def os_path_exists_def hf_hub_download_def os_rename_def
      st_message_def Let_def split: if_splits sum.splits prod.splits option.splits)


lemma descargar_downloads:
  assumes "\<not> os_path_exists d save_path"
    and "hub pf (length (downloads d)) repo_id filename (HF_TOKEN pf) = Inr archivo_path"
    and "archivo_path \<noteq> []" "save_path \<noteq> []" "rename_permitted pf archivo_path save_path"
  shows "descargar_archivo_hf pf repo_id filename save_path d =
           (Inr save_path,
            d\<lparr>files := ((files d ++ map_of (hub_blobs pf archivo_path))(archivo_path := None))
                          (save_path \<mapsto> hub_entry pf archivo_path),
              downloads := downloads d @ [(repo_id, filename)],
              messages := messages d @ [''Descargando '' @ filename @ '' desde Hugging Face...'',
                                        filename @ '' descargado correctamente!'']\<rparr>)"
  using assms
  by (simp add: descargar_archivo_hf_def hf_hub_download_def os_rename_def st_message_def Let_def)

subsection \<open>The scenarios of the fetcher, evaluated\<close>

lemma demo_fetch:
  "descargar_archivo_hf demo_platform HF_REPO_ID ''best_yolov8m.pt'' ''models/best_yolov8m.pt'' disk0
     = (Inr ''models/best_yolov8m.pt'',
        \<lparr>files = [''models/best_yolov8m.pt'' \<mapsto> File],
         downloads = [(''Marxx01/yolo_basket'', ''best_yolov8m.pt'')],
         messages = [''Descargando best_yolov8m.pt desde Hugging Face...'',
                     ''best_yolov8m.pt descargado correctamente!'']\<rparr>)"
  by (simp add: descargar_archivo_hf_def os_path_exists_def disk0_def st_message_def
      hf_hub_download_def demo_platform_def os_rename_def HF_REPO_ID_def eval_nat_numeral)

lemma demo_cached:
  "fst (descargar_archivo_hf demo_platform HF_REPO_ID ''best_yolov8m.pt'' ''models/best_yolov8m.pt''
          (disk0\<lparr>files := [''models/best_yolov8m.pt'' \<mapsto> File]\<rparr>)) = Inr ''models/best_yolov8m.pt''"
  by (simp add: descargar_cached exists_File)


text \<open>
  The hub hands out a relative link. Where the hub put it the link leads to the blob; moved
  to \<open>models/\<close> it leads nowhere. The call returns the local path, but nothing exists there:
  the next call asks the hub again, and the model cannot be loaded from the path.
\<close>

lemma linux_links:
  "link_path ''/cache/hub/models--Marxx01--yolo_basket/snapshots/main/best_yolov8m.pt''
     ''../../blobs/0a1b2c'' = ''/cache/hub/models--Marxx01--yolo_basket/blobs/0a1b2c''"
  "link_path ''models/best_yolov8m.pt'' ''../../blobs/0a1b2c'' = ''../blobs/0a1b2c''"
  by code_simp+


subsection \<open>The claim about the fetcher\<close>




section \<open>Properties of the credential check\<close>

text \<open>
  Claim C9, as amended. The credential store is a fixed mapping from the one user name
  \<open>demo\<close> to the SHA-256 digest of its password alone, with no salt; the function that
  checks a login reads it and cannot change it. \<open>authenticate\<close> is true exactly when the
  user name is a key of the mapping and the digest of the supplied password equals the
  stored one.
\<close>

theorem authenticate_iff:
  "USERS H = [''demo'' \<mapsto> H ''yolo2024''] \<and>
   hash_password H password = H password \<and>
   (authenticate H username password \<longleftrightarrow>
      username \<in> dom (USERS H) \<and> USERS H username = Some (hash_password H password))"
  by (auto simp: authenticate_def USERS_def hash_password_def split: option.splits)

text \<open>
  Witness for C9, with string reversal standing for the digest: the right password is
  accepted, a wrong one and an unknown user are refused.
\<close>

theorem authenticate_iff_witness:
  "authenticate rev ''demo'' ''yolo2024'' \<and>
   \<not> authenticate rev ''demo'' ''yolo2025'' \<and>
   \<not> authenticate rev ''admin'' ''yolo2024''"
  using authenticate_iff[of rev "''yolo2024''" "''demo''"]
    authenticate_iff[of rev "''yolo2025''" "''demo''"]
    authenticate_iff[of rev "''yolo2024''" "''admin''"]
  by (simp add: hash_password_def)

text \<open>
  Counterexample to C9 as stated: the stored secret is not salted. Whatever is claimed to
  be hashed in place of the bare password, the identity in the place of the hash function
  tells it from what the code stores.
\<close>

theorem credentials_not_salted: "\<not> hashed_with_salt ''demo'' ''yolo2024''"
proof
  assume "hashed_with_salt ''demo'' ''yolo2024''"
  then obtain hashed where h: "hashed \<noteq> ''yolo2024''"
    and all: "\<forall>H. USERS H ''demo'' = Some (H hashed)"
    unfolding hashed_with_salt_def by blast
  from all have "USERS (\<lambda>s. s) ''demo'' = Some hashed" by (rule spec)
  then have "hashed = ''yolo2024''" by (simp add: USERS_def hash_password_def)
  with h show False by simp
qed

section \<open>Properties of the model loading in \<open>main\<close>\<close>

text \<open>
  Claim C10. Whenever \<open>descargar_archivo_hf\<close> returns, it returns its argument \<open>save_path\<close>,
  and that string is not empty; it does return when the file is cached and when the
  download and the move succeed. So in \<open>main\<close> the \<open>else\<close> branch that returns on a falsy
  path is never taken.
\<close>

theorem fetcher_returns_save_path:
  "(os_path_exists d save_path \<longrightarrow>
      fst (descargar_archivo_hf pf repo_id filename save_path d) = Inr save_path) \<and>
   (\<not> os_path_exists d save_path \<and>
    hub pf (length (downloads d)) repo_id filename (HF_TOKEN pf) = Inr archivo_path \<and>
    archivo_path \<noteq> [] \<and> save_path \<noteq> [] \<and> rename_permitted pf archivo_path save_path \<longrightarrow>
      fst (descargar_archivo_hf pf repo_id filename save_path d) = Inr save_path) \<and>
   (\<forall>r d'. descargar_archivo_hf pf repo_id filename save_path d = (Inr r, d') \<longrightarrow>
      r = save_path \<and> r \<noteq> []) \<and>
   fst (main_load_model pf YOLO modelo_seleccionado d) \<noteq> Inr Returned"
proof -
  have "fst (main_load_model pf YOLO modelo_seleccionado d) \<noteq> Inr Returned"
    by (auto simp: main_load_model_def truthy_def split: option.splits prod.splits sum.splits
        dest: descargar_returns)
  moreover have "os_path_exists d save_path \<longrightarrow>
      fst (descargar_archivo_hf pf repo_id filename save_path d) = Inr save_path"
    by (simp add: descargar_cached)
  moreover have "\<not> os_path_exists d save_path \<and>
    hub pf (length (downloads d)) repo_id filename (HF_TOKEN pf) = Inr archivo_path \<and>
    archivo_path \<noteq> [] \<and> save_path \<noteq> [] \<and> rename_permitted pf archivo_path save_path \<longrightarrow>
      fst (descargar_archivo_hf pf repo_id filename save_path d) = Inr save_path"
    by (simp add: descargar_downloads)
  ultimately show ?thesis using descargar_returns by blast
qed

text \<open>
  Witness for C10: a cached model file and one that is downloaded; \<open>main\<close> loads the model
  in both cases.
\<close>

theorem fetcher_returns_save_path_witness:
  "fst (descargar_archivo_hf demo_platform HF_REPO_ID ''best_yolov8m.pt'' ''models/best_yolov8m.pt''
          (disk0\<lparr>files := [''models/best_yolov8m.pt'' \<mapsto> File]\<rparr>)) = Inr ''models/best_yolov8m.pt'' \<and>
   fst (descargar_archivo_hf demo_platform HF_REPO_ID ''best_yolov8m.pt'' ''models/best_yolov8m.pt''
          disk0) = Inr ''models/best_yolov8m.pt'' \<and>
   fst (main_load_model demo_platform stub_YOLO ''YOLOv5n6u'' disk0) = Inr (Loaded ball_stub)"
  using fetcher_returns_save_path[of "disk0\<lparr>files := [''models/best_yolov8m.pt'' \<mapsto> File]\<rparr>"
          "''models/best_yolov8m.pt''" demo_platform HF_REPO_ID "''best_yolov8m.pt''"
          "''/cache/best_yolov8m.pt''" stub_YOLO "''YOLOv5n6u''"]
    fetcher_returns_save_path[of disk0
          "''models/best_yolov8m.pt''" demo_platform HF_REPO_ID "''best_yolov8m.pt''"
          "''/cache/best_yolov8m.pt''" stub_YOLO "''YOLOv5n6u''"]
  by (simp add: demo_load demo_fetch demo_cached)

end
